theory Spec2Isabelle
  imports Main "HOL-Library.Word"
begin

section \<open>s3transport: an http.RoundTripper that dials resolved IPs\<close>

text \<open>
  The development follows \<^verbatim>\<open>file/s3file/s3transport/transport.go\<close>. Go objects that the
  code shares through pointers (transports, TLS configurations, requests, URLs, request
  bodies) live in typed stores indexed by addresses; a pointer that the code tests against
  \<^verbatim>\<open>nil\<close> is an \<open>addr option\<close>. The mutexes make \<^verbatim>\<open>hostRoundTripper\<close> and
  \<^verbatim>\<open>AddAndGet\<close> atomic, so each is one state transformer.
\<close>

subsection \<open>Values of the Go standard library\<close>

type_synonym addr = nat

text \<open>\<^verbatim>\<open>time.Duration\<close> is an int64 count of nanoseconds; \<^verbatim>\<open>time.Time\<close> is read as
  nanoseconds on one clock.\<close>

type_synonym Duration = "64 word"
type_synonym Time = int

definition Second :: Duration where
  "Second = 1000000000"

text \<open>\<^verbatim>\<open>net.IP\<close> is a byte slice.\<close>

type_synonym net_IP = "8 word list"

text \<open>Errors: an error of a collaborator, identified by its message, or the result of
  \<^verbatim>\<open>fmt.Errorf(prefix + "%w", err)\<close>, which keeps \<open>err\<close> as its cause.\<close>

datatype error = Opaque string | Errorf string error

fun Error :: "error \<Rightarrow> string" where
  "Error (Opaque msg) = msg"
| "Error (Errorf prefix err) = prefix @ Error err"

fun Unwrap :: "error \<Rightarrow> error option" where
  "Unwrap (Opaque msg) = None"
| "Unwrap (Errorf prefix err) = Some err"

text \<open>A call either returns or panics.\<close>

datatype 'a outcome = Returns 'a | Panics string

record tls_Config =
  ServerName :: string

record http_Transport =
  DialTimeout :: Duration
  DialKeepAlive :: Duration
  ForceAttemptHTTP2 :: bool
  MaxIdleConns :: int
  MaxIdleConnsPerHost :: int
  IdleConnTimeout :: Duration
  TLSClientConfig :: "addr option"
  TLSHandshakeTimeout :: Duration
  ExpectContinueTimeout :: Duration

text \<open>The store of transports and TLS configurations. Cells below the \<open>_next\<close> counter
  are allocated; \<^verbatim>\<open>&tls.Config{}\<close> and \<^verbatim>\<open>&http.Transport{...}\<close> take the next cell.\<close>

record theap =
  transports :: "addr \<Rightarrow> http_Transport"
  transports_next :: addr
  configs :: "addr \<Rightarrow> tls_Config"
  configs_next :: addr

definition new_Config :: "tls_Config \<Rightarrow> theap \<Rightarrow> addr \<times> theap" where
  "new_Config c th =
     (configs_next th,
      th\<lparr>configs := (configs th)(configs_next th := c),
         configs_next := Suc (configs_next th)\<rparr>)"

definition new_Transport :: "http_Transport \<Rightarrow> theap \<Rightarrow> addr \<times> theap" where
  "new_Transport tr th =
     (transports_next th,
      th\<lparr>transports := (transports th)(transports_next th := tr),
         transports_next := Suc (transports_next th)\<rparr>)"

text \<open>\<^verbatim>\<open>(*http.Transport).Clone\<close>: a new transport with the same settings and, when the
  receiver has a TLS configuration, a clone of that configuration.\<close>

definition Transport_Clone :: "addr \<Rightarrow> theap \<Rightarrow> addr \<times> theap" where
  "Transport_Clone a th =
     (let tr = transports th a in
      case TLSClientConfig tr of
        None \<Rightarrow> new_Transport tr th
      | Some c \<Rightarrow>
          (let (c2, th1) = new_Config (configs th c) th
           in new_Transport (tr\<lparr>TLSClientConfig := Some c2\<rparr>) th1))"

definition tls_ServerName :: "theap \<Rightarrow> addr \<Rightarrow> string option" where
  "tls_ServerName th a =
     map_option (\<lambda>c. ServerName (configs th c)) (TLSClientConfig (transports th a))"

subsection \<open>The expiring cache of resolved addresses\<close>

text \<open>
  Modelled from the spec: the type \<^verbatim>\<open>expiringMap\<close>, its constructor
  \<^verbatim>\<open>newExpiringMap\<close> and its method \<^verbatim>\<open>AddAndGet\<close>, which \<^verbatim>\<open>transport.go\<close> uses and
  another file of the package declares. The spec's CacheEntry has a key, a duplicate-free
  collection of addresses and the time it was last seen;
  \<^verbatim>\<open>AddAndGet(key, newValues)\<close> "unions newValues into the entry for key (creating the
  entry if absent), deduplicates, refreshes lastSeen to now, and returns the full current
  value set for key". The slice it returns is a list; the spec leaves its order open
  ("insertion order irrelevant").
\<close>

record CacheEntry =
  key :: string
  "values" :: "net_IP list"
  lastSeen :: Time

type_synonym expiringMap = "string \<rightharpoonup> CacheEntry"

definition newExpiringMap :: expiringMap where
  "newExpiringMap = Map.empty"

definition AddAndGet :: "string \<Rightarrow> net_IP list \<Rightarrow> Time \<Rightarrow> expiringMap \<Rightarrow> net_IP list \<times> expiringMap" where
  "AddAndGet k newValues now e =
     (let old = (case e k of None \<Rightarrow> [] | Some entry \<Rightarrow> values entry);
          merged = remdups (old @ newValues)
      in (merged, e(k \<mapsto> \<lparr>key = k, values = merged, lastSeen = now\<rparr>)))"

subsection \<open>The type T and its registry of per-host transports\<close>

text \<open>
  \<^verbatim>\<open>factory func() *http.Transport\<close> allocates in the store of transports and returns the
  address of a transport. \<open>hostRTs\<close> is the Go map from hostname to round tripper.
  \<open>factoryCalls\<close> is not a field of the Go struct: it records, newest first, the hostname
  for which each call of \<open>factory\<close> was made, so that the number of calls can be stated.
\<close>

record T =
  factory :: "theap \<Rightarrow> addr \<times> theap"
  hostRTs :: "string \<rightharpoonup> addr"
  hostIPs :: expiringMap
  factoryCalls :: "string list"

definition New :: "(theap \<Rightarrow> addr \<times> theap) \<Rightarrow> T" where
  "New f = \<lparr>factory = f, hostRTs = Map.empty, hostIPs = newExpiringMap, factoryCalls = []\<rparr>"

definition hostRoundTripper :: "T \<Rightarrow> string \<Rightarrow> theap \<Rightarrow> addr \<times> T \<times> theap" where
  "hostRoundTripper t host th =
     (case hostRTs t host of
        Some rt \<Rightarrow> (rt, t, th)
      | None \<Rightarrow>
          (let (transport, th1) = factory t th;
               t1 = t\<lparr>factoryCalls := host # factoryCalls t\<rparr>;
               (cfg, th2) =
                 (case TLSClientConfig (transports th1 transport) of
                    None \<Rightarrow>
                      (let (c, th') = new_Config \<lparr>ServerName = []\<rparr> th1
                       in (c, th'\<lparr>transports := (transports th')
                                 (transport := (transports th' transport)\<lparr>TLSClientConfig := Some c\<rparr>)\<rparr>))
                  | Some c \<Rightarrow> (c, th1));
               th3 = th2\<lparr>configs := (configs th2)(cfg := (configs th2 cfg)\<lparr>ServerName := host\<rparr>)\<rparr>
           in (transport, t1\<lparr>hostRTs := (hostRTs t1)(host \<mapsto> transport)\<rparr>, th3)))"

text \<open>A client that makes one lookup after the other.\<close>

fun lookups :: "T \<Rightarrow> string list \<Rightarrow> theap \<Rightarrow> addr list \<times> T \<times> theap" where
  "lookups t [] th = ([], t, th)"
| "lookups t (host # hosts) th =
     (let (rt, t1, th1) = hostRoundTripper t host th;
          (rts, t2, th2) = lookups t1 hosts th1
      in (rt # rts, t2, th2))"

text \<open>
  The contract of \<^verbatim>\<open>New\<close>: "Each call to factory() must return a separate http.Transport
  and they must not share TLSClientConfig". Here: the transport returned is newly
  allocated, its TLS configuration is nil or newly allocated, and the objects that
  existed before the call are unchanged.
\<close>

definition separate_transports :: "(theap \<Rightarrow> addr \<times> theap) \<Rightarrow> bool" where
  "separate_transports f \<longleftrightarrow>
     (\<forall>th. case f th of (a, th') \<Rightarrow>
        transports_next th \<le> a \<and> a < transports_next th' \<and>
        configs_next th \<le> configs_next th' \<and>
        (\<forall>b. b < transports_next th \<longrightarrow> transports th' b = transports th b) \<and>
        (\<forall>c. c < configs_next th \<longrightarrow> configs th' c = configs th c) \<and>
        (case TLSClientConfig (transports th' a) of
           None \<Rightarrow> True
         | Some c \<Rightarrow> configs_next th \<le> c \<and> c < configs_next th'))"

text \<open>Every stored transport is allocated and checks certificates against its key.\<close>

definition registry_ok :: "T \<Rightarrow> theap \<Rightarrow> bool" where
  "registry_ok t th \<longleftrightarrow>
     (\<forall>host a. hostRTs t host = Some a \<longrightarrow>
        a < transports_next th \<and>
        (\<exists>c. TLSClientConfig (transports th a) = Some c \<and> c < configs_next th \<and>
             ServerName (configs th c) = host))"

subsection \<open>The package's default transport\<close>

text \<open>
  The package variable \<^verbatim>\<open>httpTransport\<close>. The constants \<^verbatim>\<open>expireAfter\<close> and
  \<^verbatim>\<open>expireLoopEvery\<close> are declared in another file of the package, and
  \<^verbatim>\<open>stdDefaultTransport\<close> is \<^verbatim>\<open>http.DefaultTransport\<close>: all three are parameters.
  The dialer's two settings stand for \<^verbatim>\<open>DialContext\<close>.
\<close>

definition httpTransport :: "Duration \<Rightarrow> Duration \<Rightarrow> http_Transport \<Rightarrow> theap \<Rightarrow> addr \<times> theap" where
  "httpTransport expireAfter expireLoopEvery stdDefaultTransport th =
     (let (c, th1) = new_Config \<lparr>ServerName = []\<rparr> th
      in new_Transport
           \<lparr>DialTimeout = 30 * Second,
            DialKeepAlive = 30 * Second,
            ForceAttemptHTTP2 = False,
            MaxIdleConns = 200,
            MaxIdleConnsPerHost = 4,
            IdleConnTimeout = expireAfter + 2 * expireLoopEvery,
            TLSClientConfig = Some c,
            TLSHandshakeTimeout = TLSHandshakeTimeout stdDefaultTransport,
            ExpectContinueTimeout = ExpectContinueTimeout stdDefaultTransport\<rparr> th1)"

text \<open>\<^verbatim>\<open>Default = New(httpTransport.Clone)\<close>, for \<^verbatim>\<open>httpTransport\<close> at the given address.\<close>

definition Default :: "addr \<Rightarrow> T" where
  "Default httpTransport_addr = New (Transport_Clone httpTransport_addr)"

text \<open>A store in which nothing is allocated yet; every cell holds the zero value.\<close>

definition zero_Transport :: http_Transport where
  "zero_Transport =
     \<lparr>DialTimeout = 0, DialKeepAlive = 0, ForceAttemptHTTP2 = False, MaxIdleConns = 0,
      MaxIdleConnsPerHost = 0, IdleConnTimeout = 0, TLSClientConfig = None,
      TLSHandshakeTimeout = 0, ExpectContinueTimeout = 0\<rparr>"

definition empty_theap :: theap where
  "empty_theap =
     \<lparr>transports = (\<lambda>a. zero_Transport), transports_next = 0,
      configs = (\<lambda>a. \<lparr>ServerName = []\<rparr>), configs_next = 0\<rparr>"

subsection \<open>Requests and URLs\<close>

text \<open>\<open>URL_Host\<close> is the field \<^verbatim>\<open>Host\<close> of \<^verbatim>\<open>url.URL\<close> ("host or host:port"); \<open>Host\<close>
  is the field \<^verbatim>\<open>Host\<close> of \<^verbatim>\<open>http.Request\<close>. A request's \<^verbatim>\<open>URL\<close> is a pointer that
  clients always set; \<^verbatim>\<open>Body\<close> may be nil. For a body the store keeps whether
  \<^verbatim>\<open>Close\<close> has been called on it.\<close>

record url_URL =
  Scheme :: string
  URL_Host :: string
  Path :: string

record http_Request =
  Method :: string
  URL :: addr
  Header :: "(string \<times> string) list"
  Body :: "addr option"
  Host :: string

record heap =
  tstore :: theap
  requests :: "addr \<Rightarrow> http_Request"
  requests_next :: addr
  urls :: "addr \<Rightarrow> url_URL"
  urls_next :: addr
  closed :: "addr \<Rightarrow> bool"

definition new_URL :: "url_URL \<Rightarrow> heap \<Rightarrow> addr \<times> heap" where
  "new_URL u h =
     (urls_next h, h\<lparr>urls := (urls h)(urls_next h := u), urls_next := Suc (urls_next h)\<rparr>)"

definition new_Request :: "http_Request \<Rightarrow> heap \<Rightarrow> addr \<times> heap" where
  "new_Request r h =
     (requests_next h,
      h\<lparr>requests := (requests h)(requests_next h := r), requests_next := Suc (requests_next h)\<rparr>)"

text \<open>\<^verbatim>\<open>(*http.Request).Clone\<close>: a new request with the same fields and a copy of the URL;
  the body is shared.\<close>

definition Request_Clone :: "addr \<Rightarrow> heap \<Rightarrow> addr \<times> heap" where
  "Request_Clone req h =
     (let r = requests h req;
          (u2, h1) = new_URL (urls h (URL r)) h
      in new_Request (r\<lparr>URL := u2\<rparr>) h1)"

definition Body_Close :: "addr \<Rightarrow> heap \<Rightarrow> heap" where
  "Body_Close b h = h\<lparr>closed := (closed h)(b := True)\<rparr>"

text \<open>\<^verbatim>\<open>(*url.URL).Hostname\<close> of package net/url, with its helpers
  \<^verbatim>\<open>splitHostPort\<close> and \<^verbatim>\<open>validOptionalPort\<close>, and \<^verbatim>\<open>strings.LastIndexByte\<close>.\<close>

definition is_digit :: "char \<Rightarrow> bool" where
  "is_digit b \<longleftrightarrow> (48::nat) \<le> of_char b \<and> of_char b \<le> (57::nat)"

definition validOptionalPort :: "string \<Rightarrow> bool" where
  "validOptionalPort port =
     (case port of
        [] \<Rightarrow> True
      | c # rest \<Rightarrow> if c \<noteq> CHR '':'' then False else list_all is_digit rest)"

fun lastIndexFrom :: "string \<Rightarrow> char \<Rightarrow> nat \<Rightarrow> int" where
  "lastIndexFrom s c 0 = - 1"
| "lastIndexFrom s c (Suc i) = (if s ! i = c then int i else lastIndexFrom s c i)"

definition LastIndexByte :: "string \<Rightarrow> char \<Rightarrow> int" where
  "LastIndexByte s c = lastIndexFrom s c (length s)"

definition splitHostPort :: "string \<Rightarrow> string \<times> string" where
  "splitHostPort hostPort =
     (let colon = LastIndexByte hostPort CHR '':'';
          (host, port) =
            (if colon \<noteq> - 1 \<and> validOptionalPort (drop (nat colon) hostPort)
             then (take (nat colon) hostPort, drop (nat colon + 1) hostPort)
             else (hostPort, []));
          host' =
            (if host \<noteq> [] \<and> hd host = CHR ''['' \<and> last host = CHR '']''
             then butlast (tl host) else host)
      in (host', port))"

definition Hostname :: "url_URL \<Rightarrow> string" where
  "Hostname u = fst (splitHostPort (URL_Host u))"

subsection \<open>RoundTrip\<close>

text \<open>
  What a call of \<^verbatim>\<open>RoundTrip\<close> takes from outside the file: the resolver
  \<^verbatim>\<open>defaultResolver\<close> (declared elsewhere in the package), the reading of the cache's
  clock, the number the random source yields, \<^verbatim>\<open>net.IP.String\<close>, and the
  \<^verbatim>\<open>RoundTrip\<close> of the pooled \<^verbatim>\<open>http.Transport\<close>, which gets the transport, the request
  and the store and returns Go's pair of response and error.
\<close>

record 'resp env =
  LookupIP :: "string \<Rightarrow> error + net_IP list"
  Now :: Time
  rand_source :: nat
  IP_String :: "net_IP \<Rightarrow> string"
  Transport_RoundTrip :: "addr \<Rightarrow> addr \<Rightarrow> heap \<Rightarrow> ('resp option \<times> error option) \<times> heap"

text \<open>\<^verbatim>\<open>rand.Intn(n)\<close> panics for \<open>n \<le> 0\<close> and otherwise returns a number of \<open>[0, n)\<close>;
  indexing a slice panics out of range.\<close>

definition rand_Intn :: "nat \<Rightarrow> int \<Rightarrow> int outcome" where
  "rand_Intn src n = (if n \<le> 0 then Panics ''invalid argument to Intn'' else Returns (int src mod n))"

definition index :: "'a list \<Rightarrow> int \<Rightarrow> 'a outcome" where
  "index xs i =
     (if 0 \<le> i \<and> i < int (length xs) then Returns (xs ! nat i) else Panics ''index out of range'')"

definition RoundTrip ::
  "'resp env \<Rightarrow> T \<Rightarrow> addr \<Rightarrow> heap \<Rightarrow> (('resp option \<times> error option) \<times> T \<times> heap) outcome" where
  "RoundTrip env t req h =
     (let host = Hostname (urls h (URL (requests h req))) in
      case LookupIP env host of
        Inl err \<Rightarrow>
          (let h1 = (case Body (requests h req) of None \<Rightarrow> h | Some b \<Rightarrow> Body_Close b h)
           in Returns ((None, Some (Errorf ''s3transport: lookup ip: '' err)), t, h1))
      | Inr resolved \<Rightarrow>
          (let (ips, cache) = AddAndGet host resolved (Now env) (hostIPs t);
               t1 = t\<lparr>hostIPs := cache\<rparr>;
               (hostReq, h1) = Request_Clone req h;
               h2 = h1\<lparr>requests := (requests h1)(hostReq := (requests h1 hostReq)\<lparr>Host := host\<rparr>)\<rparr>
           in case rand_Intn (rand_source env) (int (length ips)) of
                Panics msg \<Rightarrow> Panics msg
              | Returns i \<Rightarrow>
                  (case index ips i of
                     Panics msg \<Rightarrow> Panics msg
                   | Returns ip \<Rightarrow>
                       (let u = URL (requests h2 hostReq);
                            h3 = h2\<lparr>urls := (urls h2)(u := (urls h2 u)\<lparr>URL_Host := IP_String env ip\<rparr>)\<rparr>;
                            (rt, t2, th) = hostRoundTripper t1 host (tstore h3);
                            (res, h4) = Transport_RoundTrip env rt hostReq (h3\<lparr>tstore := th\<rparr>)
                        in Returns (res, t2, h4)))))"

subsection \<open>Concurrent callers of the cache\<close>


subsection \<open>What RoundTrip hands to the pooled transport\<close>

text \<open>\<open>dispatches env t req h rt hostReq h' t'\<close>: whatever the pooled transport's
  \<^verbatim>\<open>RoundTrip\<close> does, the call \<^verbatim>\<open>t.RoundTrip(req)\<close> in store \<open>h\<close> invokes it once, on
  transport \<open>rt\<close> with request \<open>hostReq\<close> in store \<open>h'\<close>, returns its pair of response and
  error and leaves \<open>T\<close> as \<open>t'\<close>.\<close>

definition dispatches ::
  "'resp env \<Rightarrow> T \<Rightarrow> addr \<Rightarrow> heap \<Rightarrow> addr \<Rightarrow> addr \<Rightarrow> heap \<Rightarrow> T \<Rightarrow> bool" where
  "dispatches env t req h rt hostReq h' t' \<longleftrightarrow>
     (\<forall>d. RoundTrip (env\<lparr>Transport_RoundTrip := d\<rparr>) t req h =
            Returns (fst (d rt hostReq h'), t', snd (d rt hostReq h')))"


subsection \<open>A scenario\<close>

text \<open>The spec's end-to-end scenario: a GET for \<^verbatim>\<open>https://bucket.example.com:443/key\<close>,
  with a body; the hostname resolves to 203.0.113.5 and 203.0.113.6. The package's
  \<^verbatim>\<open>httpTransport\<close> is the first transport of the store, at address 0.\<close>

definition scenario_theap :: theap where
  "scenario_theap = snd (httpTransport (5 * Second) Second zero_Transport empty_theap)"

definition scenario_heap :: heap where
  "scenario_heap =
     \<lparr>tstore = scenario_theap,
      requests = (\<lambda>a. \<lparr>Method = ''GET'', URL = 0, Header = [], Body = Some 0, Host = []\<rparr>),
      requests_next = 1,
      urls = (\<lambda>a. \<lparr>Scheme = ''https'', URL_Host = ''bucket.example.com:443'', Path = ''/key''\<rparr>),
      urls_next = 1,
      closed = (\<lambda>a. False)\<rparr>"

definition scenario_env :: "string env" where
  "scenario_env =
     \<lparr>LookupIP = (\<lambda>host. if host = ''bucket.example.com''
                         then Inr [[203, 0, 113, 5], [203, 0, 113, 6]]
                         else Inl (Opaque ''no such host'')),
      Now = 1000,
      rand_source = 7,
      IP_String = (\<lambda>ip. if ip = [203, 0, 113, 5] then ''203.0.113.5''
                        else if ip = [203, 0, 113, 6] then ''203.0.113.6'' else ''?''),
      Transport_RoundTrip = (\<lambda>rt r h. ((Some ''200 OK'', None), h))\<rparr>"

section \<open>Properties\<close>

subsection \<open>The registry\<close>

lemma hostRoundTripper_hit:
  "hostRTs t host = Some rt \<Longrightarrow> hostRoundTripper t host th = (rt, t, th)"
  by (simp add: hostRoundTripper_def)

lemma hostRoundTripper_miss:
  assumes "hostRTs t host = None" and "factory t th = (a, th1)"
  shows "\<exists>th'. hostRoundTripper t host th =
           (a, t\<lparr>factoryCalls := host # factoryCalls t, hostRTs := (hostRTs t)(host \<mapsto> a)\<rparr>, th')"
  using assms by (simp add: hostRoundTripper_def Let_def split: option.splits prod.splits)

lemma hostRoundTripper_factory:
  "hostRoundTripper t host th = (rt, t', th') \<Longrightarrow> factory t' = factory t"
  by (auto simp: hostRoundTripper_def Let_def split: option.splits prod.splits)

lemma hostRoundTripper_stored:
  "hostRoundTripper t host th = (rt, t', th') \<Longrightarrow> hostRTs t' host = Some rt"
  by (auto simp: hostRoundTripper_def Let_def split: option.splits prod.splits)

lemma hostRoundTripper_keeps:
  assumes "hostRoundTripper t host th = (rt, t', th')" and "hostRTs t h = Some a"
  shows "hostRTs t' h = Some a"
  using assms
  by (cases "hostRTs t host")
     (auto simp: hostRoundTripper_def Let_def split: option.splits prod.splits if_splits)

lemma hostRoundTripper_dom:
  "hostRoundTripper t host th = (rt, t', th') \<Longrightarrow> dom (hostRTs t') = insert host (dom (hostRTs t))"
  by (cases "hostRTs t host")
     (auto simp: hostRoundTripper_def Let_def split: option.splits prod.splits if_splits)

lemma hostRoundTripper_calls:
  assumes "hostRoundTripper t host th = (rt, t', th')"
  shows "factoryCalls t' = (if host \<in> dom (hostRTs t) then factoryCalls t else host # factoryCalls t)"
  using assms
  by (cases "hostRTs t host")
     (auto simp: hostRoundTripper_def Let_def split: option.splits prod.splits if_splits)

lemma hostRoundTripper_registry:
  assumes "hostRoundTripper t host th = (rt, t', th')"
  shows "hostRTs t' = (hostRTs t)(host \<mapsto> rt) \<and> hostIPs t' = hostIPs t"
  using assms
  by (cases "hostRTs t host")
     (auto simp: hostRoundTripper_def Let_def split: option.splits prod.splits)

text \<open>A lookup keeps the registry's invariant when the factory keeps its contract: the new
  transport and its configuration are fresh, so writing the server name touches no
  transport that is already stored.\<close>

lemma hostRoundTripper_registry_ok:
  assumes f: "separate_transports (factory t)" and ok: "registry_ok t th"
    and run: "hostRoundTripper t host th = (rt, t', th')"
  shows "registry_ok t' th'"
proof (cases "hostRTs t host")
  case (Some a)
  with run ok show ?thesis by (simp add: hostRoundTripper_def)
next
  case None
  obtain a th1 where fa: "factory t th = (a, th1)" by (cases "factory t th")
  from f fa have fresh:
    "transports_next th \<le> a" "a < transports_next th1" "configs_next th \<le> configs_next th1"
    "\<And>b. b < transports_next th \<Longrightarrow> transports th1 b = transports th b"
    "\<And>c. c < configs_next th \<Longrightarrow> configs th1 c = configs th c"
    "\<And>c. TLSClientConfig (transports th1 a) = Some c \<Longrightarrow> configs_next th \<le> c \<and> c < configs_next th1"
    unfolding separate_transports_def
    by (auto dest!: spec[of _ th] split: option.splits)
  show ?thesis
  proof (cases "TLSClientConfig (transports th1 a)")
    case nil: None
    with None fa run have
      t': "hostRTs t' = (hostRTs t)(host \<mapsto> a)" and
      th': "th' = th1\<lparr>configs := (configs th1)(configs_next th1 := \<lparr>ServerName = host\<rparr>),
                     configs_next := Suc (configs_next th1),
                     transports := (transports th1)(a := (transports th1 a)\<lparr>TLSClientConfig := Some (configs_next th1)\<rparr>)\<rparr>"
      by (auto simp: hostRoundTripper_def Let_def new_Config_def)
    show ?thesis
      unfolding registry_ok_def
    proof (intro allI impI)
      fix h b assume hb: "hostRTs t' h = Some b"
      show "b < transports_next th' \<and>
        (\<exists>c. TLSClientConfig (transports th' b) = Some c \<and> c < configs_next th' \<and>
             ServerName (configs th' c) = h)"
      proof (cases "h = host")
        case True
        with hb t' have "b = a" by simp
        with True fresh th' show ?thesis by simp
      next
        case False
        with hb t' have old: "hostRTs t h = Some b" by simp
        with ok obtain c where c: "b < transports_next th"
          "TLSClientConfig (transports th b) = Some c" "c < configs_next th"
          "ServerName (configs th c) = h"
          unfolding registry_ok_def by blast
        with fresh th' show ?thesis by auto
      qed
    qed
  next
    case (Some c0)
    with None fa run have
      t': "hostRTs t' = (hostRTs t)(host \<mapsto> a)" and
      th': "th' = th1\<lparr>configs := (configs th1)(c0 := (configs th1 c0)\<lparr>ServerName := host\<rparr>)\<rparr>"
      by (auto simp: hostRoundTripper_def Let_def)
    from fresh(6)[OF Some] have c0: "configs_next th \<le> c0" "c0 < configs_next th1" by simp_all
    show ?thesis
      unfolding registry_ok_def
    proof (intro allI impI)
      fix h b assume hb: "hostRTs t' h = Some b"
      show "b < transports_next th' \<and>
        (\<exists>c. TLSClientConfig (transports th' b) = Some c \<and> c < configs_next th' \<and>
             ServerName (configs th' c) = h)"
      proof (cases "h = host")
        case True
        with hb t' have "b = a" by simp
        with True fresh th' Some c0 show ?thesis by simp
      next
        case False
        with hb t' have old: "hostRTs t h = Some b" by simp
        with ok obtain c where c: "b < transports_next th"
          "TLSClientConfig (transports th b) = Some c" "c < configs_next th"
          "ServerName (configs th c) = h"
          unfolding registry_ok_def by blast
        with fresh th' c0 show ?thesis by auto
      qed
    qed
  qed
qed

lemma registry_ok_ServerName:
  "registry_ok t th \<Longrightarrow> hostRTs t host = Some rt \<Longrightarrow> tls_ServerName th rt = Some host"
  by (auto simp: registry_ok_def tls_ServerName_def)

lemma registry_ok_New: "registry_ok (New f) th"
  by (simp add: registry_ok_def New_def)

lemma lookups_length: "lookups t hosts th = (rts, t', th') \<Longrightarrow> length rts = length hosts"
  by (induction hosts arbitrary: t th rts) (auto simp: Let_def split: prod.splits)

lemma lookups_keeps:
  "lookups t hosts th = (rts, t', th') \<Longrightarrow> hostRTs t h = Some a \<Longrightarrow> hostRTs t' h = Some a"
proof (induction hosts arbitrary: t th rts)
  case Nil
  then show ?case by simp
next
  case (Cons host hosts)
  obtain rt t1 th1 where s: "hostRoundTripper t host th = (rt, t1, th1)"
    by (cases "hostRoundTripper t host th") auto
  obtain rts1 where r: "lookups t1 hosts th1 = (rts1, t', th')"
    using Cons.prems(1) s by (auto simp: Let_def split: prod.splits)
  from hostRoundTripper_keeps[OF s Cons.prems(2)] Cons.IH[OF r] show ?case by simp
qed

lemma lookups_stored:
  "lookups t hosts th = (rts, t', th') \<Longrightarrow> map (hostRTs t') hosts = map Some rts"
proof (induction hosts arbitrary: t th rts)
  case Nil
  then show ?case by simp
next
  case (Cons host hosts)
  obtain rt t1 th1 where s: "hostRoundTripper t host th = (rt, t1, th1)"
    by (cases "hostRoundTripper t host th") auto
  obtain rts1 where r: "lookups t1 hosts th1 = (rts1, t', th')" and rts: "rts = rt # rts1"
    using Cons.prems(1) s by (auto simp: Let_def split: prod.splits)
  have "hostRTs t' host = Some rt"
    using lookups_keeps[OF r hostRoundTripper_stored[OF s]] .
  with Cons.IH[OF r] rts show ?case by simp
qed

lemma lookups_dom:
  "lookups t hosts th = (rts, t', th') \<Longrightarrow> dom (hostRTs t') = dom (hostRTs t) \<union> set hosts"
proof (induction hosts arbitrary: t th rts)
  case Nil
  then show ?case by simp
next
  case (Cons host hosts)
  obtain rt t1 th1 where s: "hostRoundTripper t host th = (rt, t1, th1)"
    by (cases "hostRoundTripper t host th") auto
  obtain rts1 where r: "lookups t1 hosts th1 = (rts1, t', th')"
    using Cons.prems(1) s by (auto simp: Let_def split: prod.splits)
  from Cons.IH[OF r] hostRoundTripper_dom[OF s] show ?case by auto
qed

lemma lookups_calls:
  assumes "lookups t hosts th = (rts, t', th')"
    and "distinct (factoryCalls t)" and "set (factoryCalls t) \<subseteq> dom (hostRTs t)"
  shows "distinct (factoryCalls t') \<and>
         set (factoryCalls t') = set (factoryCalls t) \<union> (set hosts - dom (hostRTs t))"
  using assms
proof (induction hosts arbitrary: t th rts)
  case Nil
  then show ?case by simp
next
  case (Cons host hosts)
  obtain rt t1 th1 where s: "hostRoundTripper t host th = (rt, t1, th1)"
    by (cases "hostRoundTripper t host th") auto
  obtain rts1 where r: "lookups t1 hosts th1 = (rts1, t', th')"
    using Cons.prems(1) s by (auto simp: Let_def split: prod.splits)
  note c = hostRoundTripper_calls[OF s] and d = hostRoundTripper_dom[OF s]
  have d1: "distinct (factoryCalls t1)" using c Cons.prems(2,3) by auto
  have s1: "set (factoryCalls t1) \<subseteq> dom (hostRTs t1)" using c d Cons.prems(3) by auto
  from Cons.IH[OF r d1 s1] c d show ?case by auto
qed

lemma lookups_registry_ok:
  assumes "separate_transports (factory t)" and "registry_ok t th"
    and "lookups t hosts th = (rts, t', th')"
  shows "registry_ok t' th'"
  using assms
proof (induction hosts arbitrary: t th rts)
  case Nil
  then show ?case by simp
next
  case (Cons host hosts)
  obtain rt t1 th1 where s: "hostRoundTripper t host th = (rt, t1, th1)"
    by (cases "hostRoundTripper t host th") auto
  obtain rts1 where r: "lookups t1 hosts th1 = (rts1, t', th')"
    using Cons.prems(3) s by (auto simp: Let_def split: prod.splits)
  have f1: "separate_transports (factory t1)"
    using hostRoundTripper_factory[OF s] Cons.prems(1) by simp
  from Cons.IH[OF f1 hostRoundTripper_registry_ok[OF Cons.prems(1,2) s] r] show ?case .
qed

text \<open>Two factories that keep the contract: \<^verbatim>\<open>httpTransport.Clone\<close>, and one that
  allocates a transport without a TLS configuration.\<close>

lemma separate_Transport_Clone: "separate_transports (Transport_Clone a)"
  by (auto simp: separate_transports_def Transport_Clone_def new_Config_def new_Transport_def
      Let_def split: option.splits)

lemma separate_new_Transport:
  "TLSClientConfig tr = None \<Longrightarrow> separate_transports (new_Transport tr)"
  by (simp add: separate_transports_def new_Transport_def)

lemmas scenario_defs =
  scenario_theap_def scenario_heap_def scenario_env_def httpTransport_def empty_theap_def
  zero_Transport_def New_def Default_def newExpiringMap_def Second_def

lemmas registry_defs =
  hostRoundTripper_def Transport_Clone_def new_Config_def new_Transport_def tls_ServerName_def

text \<open>
  C1. For every hostname, the transport that the registry lookup produces for it has its
  TLS server name set to that hostname, and every transport stored in the registry has its
  key as server name, also when the factory returns a transport whose TLSClientConfig is
  nil. Stated for a \<open>T\<close> made by \<open>New\<close> from a factory that keeps the contract of
  \<open>New\<close>, after any sequence of lookups: every entry of the registry, and the transport
  returned by each lookup, has the hostname as the server name of its TLS configuration.
\<close>

theorem registry_ServerName:
  assumes "separate_transports f" and "lookups (New f) hosts th0 = (rts, t, th)"
  shows "(\<forall>host rt. hostRTs t host = Some rt \<longrightarrow> tls_ServerName th rt = Some host) \<and>
         map (tls_ServerName th) rts = map Some hosts"
proof -
  have ok: "registry_ok t th"
    using lookups_registry_ok[OF _ registry_ok_New assms(2)] assms(1) by (simp add: New_def)
  have len: "length rts = length hosts" using lookups_length[OF assms(2)] .
  have st: "map (hostRTs t) hosts = map Some rts" using lookups_stored[OF assms(2)] .
  have "map (tls_ServerName th) rts = map Some hosts"
  proof (rule nth_equalityI)
    show "length (map (tls_ServerName th) rts) = length (map Some hosts)" using len by simp
  next
    fix i assume "i < length (map (tls_ServerName th) rts)"
    then have i: "i < length rts" "i < length hosts" using len by simp_all
    from st i have "hostRTs t (hosts ! i) = Some (rts ! i)"
      by (metis length_map nth_map)
    from registry_ok_ServerName[OF ok this] i
    show "map (tls_ServerName th) rts ! i = map Some hosts ! i" by simp
  qed
  with ok show ?thesis by (auto intro: registry_ok_ServerName)
qed

theorem registry_ServerName_witness:
  "separate_transports (Transport_Clone 0) \<and>
   fst (lookups (New (Transport_Clone 0)) [''a'', ''b'', ''a''] scenario_theap) = [1, 2, 1] \<and>
   map (tls_ServerName (snd (snd (lookups (New (Transport_Clone 0)) [''a'', ''b'', ''a''] scenario_theap))))
       (fst (lookups (New (Transport_Clone 0)) [''a'', ''b'', ''a''] scenario_theap))
     = [Some ''a'', Some ''b'', Some ''a''] \<and>
   separate_transports (new_Transport zero_Transport) \<and>
   TLSClientConfig zero_Transport = None \<and>
   map (tls_ServerName (snd (snd (lookups (New (new_Transport zero_Transport)) [''a'', ''b''] empty_theap))))
       (fst (lookups (New (new_Transport zero_Transport)) [''a'', ''b''] empty_theap))
     = [Some ''a'', Some ''b'']"
proof -
  have f1: "separate_transports (Transport_Clone 0)" by (rule separate_Transport_Clone)
  have n: "TLSClientConfig zero_Transport = None" by (simp add: zero_Transport_def)
  have f2: "separate_transports (new_Transport zero_Transport)"
    by (rule separate_new_Transport[OF n])
  have r: "fst (lookups (New (Transport_Clone 0)) [''a'', ''b'', ''a''] scenario_theap) = [1, 2, 1]"
    by (simp add: scenario_defs registry_defs Let_def)
  from registry_ServerName[OF f1, of "[''a'', ''b'', ''a'']" scenario_theap
      "fst (lookups (New (Transport_Clone 0)) [''a'', ''b'', ''a''] scenario_theap)"
      "fst (snd (lookups (New (Transport_Clone 0)) [''a'', ''b'', ''a''] scenario_theap))"
      "snd (snd (lookups (New (Transport_Clone 0)) [''a'', ''b'', ''a''] scenario_theap))"]
  have a: "map (tls_ServerName (snd (snd (lookups (New (Transport_Clone 0)) [''a'', ''b'', ''a''] scenario_theap))))
       (fst (lookups (New (Transport_Clone 0)) [''a'', ''b'', ''a''] scenario_theap))
     = [Some ''a'', Some ''b'', Some ''a'']" by simp
  from registry_ServerName[OF f2, of "[''a'', ''b'']" empty_theap
      "fst (lookups (New (new_Transport zero_Transport)) [''a'', ''b''] empty_theap)"
      "fst (snd (lookups (New (new_Transport zero_Transport)) [''a'', ''b''] empty_theap))"
      "snd (snd (lookups (New (new_Transport zero_Transport)) [''a'', ''b''] empty_theap))"]
  have b: "map (tls_ServerName (snd (snd (lookups (New (new_Transport zero_Transport)) [''a'', ''b''] empty_theap))))
       (fst (lookups (New (new_Transport zero_Transport)) [''a'', ''b''] empty_theap))
     = [Some ''a'', Some ''b'']" by simp
  from f1 f2 n r a b show ?thesis by simp
qed

text \<open>
  C2. The lookup returns the stored transport for a hostname when there is one, without
  calling the factory and without changing anything; otherwise it calls the factory once,
  stores the transport under the hostname and returns it. Over any sequence of lookups no
  entry is ever replaced, each lookup returns the transport stored for its hostname (so
  two lookups for one hostname return the same instance, and each hostname has one
  transport), and starting from \<open>New\<close> the factory is called exactly once for each
  distinct hostname.
\<close>

theorem registry_reuses_transport:
  "(hostRTs t host = Some rt \<longrightarrow> hostRoundTripper t host th = (rt, t, th)) \<and>
   (hostRTs t host = None \<longrightarrow>
      (\<exists>th'. hostRoundTripper t host th =
         (fst (factory t th),
          t\<lparr>factoryCalls := host # factoryCalls t,
            hostRTs := (hostRTs t)(host \<mapsto> fst (factory t th))\<rparr>,
          th'))) \<and>
   (lookups t hosts th = (rts, t', th') \<longrightarrow>
      (\<forall>h a. hostRTs t h = Some a \<longrightarrow> hostRTs t' h = Some a) \<and>
      map (hostRTs t') hosts = map Some rts \<and>
      dom (hostRTs t') = dom (hostRTs t) \<union> set hosts) \<and>
   (lookups (New f) hosts th = (rts, t', th') \<longrightarrow>
      distinct (factoryCalls t') \<and> set (factoryCalls t') = set hosts \<and>
      (\<forall>i j. i < length hosts \<and> j < length hosts \<and> hosts ! i = hosts ! j \<longrightarrow> rts ! i = rts ! j))"
proof (intro conjI impI)
  assume "hostRTs t host = Some rt"
  then show "hostRoundTripper t host th = (rt, t, th)" by (rule hostRoundTripper_hit)
next
  assume "hostRTs t host = None"
  then show "\<exists>th'. hostRoundTripper t host th =
         (fst (factory t th),
          t\<lparr>factoryCalls := host # factoryCalls t,
            hostRTs := (hostRTs t)(host \<mapsto> fst (factory t th))\<rparr>,
          th')"
    by (rule hostRoundTripper_miss) (rule prod.collapse[symmetric])
next
  assume l: "lookups t hosts th = (rts, t', th')"
  show "\<forall>h a. hostRTs t h = Some a \<longrightarrow> hostRTs t' h = Some a"
    using lookups_keeps[OF l] by blast
  show "map (hostRTs t') hosts = map Some rts" by (rule lookups_stored[OF l])
  show "dom (hostRTs t') = dom (hostRTs t) \<union> set hosts" by (rule lookups_dom[OF l])
next
  assume l: "lookups (New f) hosts th = (rts, t', th')"
  from lookups_calls[OF l] show "distinct (factoryCalls t')" by (simp add: New_def)
  from lookups_calls[OF l] show "set (factoryCalls t') = set hosts" by (simp add: New_def)
  show "\<forall>i j. i < length hosts \<and> j < length hosts \<and> hosts ! i = hosts ! j \<longrightarrow> rts ! i = rts ! j"
  proof (intro allI impI)
    fix i j assume ij: "i < length hosts \<and> j < length hosts \<and> hosts ! i = hosts ! j"
    have len: "length rts = length hosts" by (rule lookups_length[OF l])
    have st: "map (hostRTs t') hosts = map Some rts" by (rule lookups_stored[OF l])
    have "Some (rts ! i) = hostRTs t' (hosts ! i)"
      using st ij len by (metis nth_map)
    also have "\<dots> = hostRTs t' (hosts ! j)" using ij by simp
    also have "\<dots> = Some (rts ! j)" using st ij len by (metis nth_map)
    finally show "rts ! i = rts ! j" by simp
  qed
qed

theorem registry_reuses_transport_witness:
  "hostRTs (fst (snd (hostRoundTripper (New (Transport_Clone 0)) ''a'' scenario_theap))) ''a'' = Some 1 \<and>
   hostRoundTripper (fst (snd (hostRoundTripper (New (Transport_Clone 0)) ''a'' scenario_theap))) ''a'' empty_theap
     = (1, fst (snd (hostRoundTripper (New (Transport_Clone 0)) ''a'' scenario_theap)), empty_theap) \<and>
   hostRTs (New (Transport_Clone 0)) ''a'' = None \<and>
   fst (hostRoundTripper (New (Transport_Clone 0)) ''a'' scenario_theap) = 1 \<and>
   fst (lookups (New (Transport_Clone 0)) [''a'', ''b'', ''a''] scenario_theap) = [1, 2, 1] \<and>
   factoryCalls (fst (snd (lookups (New (Transport_Clone 0)) [''a'', ''b'', ''a''] scenario_theap)))
     = [''b'', ''a''] \<and>
   map (hostRTs (fst (snd (lookups (New (Transport_Clone 0)) [''a'', ''b'', ''a''] scenario_theap))))
     [''a'', ''b'', ''a''] = [Some 1, Some 2, Some 1]"
proof -
  let ?t0 = "New (Transport_Clone 0)"
  let ?t1 = "fst (snd (hostRoundTripper ?t0 ''a'' scenario_theap))"
  let ?R = "lookups ?t0 [''a'', ''b'', ''a''] scenario_theap"
  have h1: "hostRTs ?t1 ''a'' = Some 1"
    by (simp add: scenario_defs registry_defs Let_def)
  have h0: "hostRTs ?t0 ''a'' = None" by (simp add: New_def)
  have f0: "fst (hostRoundTripper ?t0 ''a'' scenario_theap) = 1"
    by (simp add: scenario_defs registry_defs Let_def)
  have r: "fst ?R = [1, 2, 1]"
    by (simp add: scenario_defs registry_defs Let_def)
  have c: "factoryCalls (fst (snd ?R)) = [''b'', ''a'']"
    by (simp add: scenario_defs registry_defs Let_def)
  have l: "?R = (fst ?R, fst (snd ?R), snd (snd ?R))" by simp
  note hit = registry_reuses_transport[of ?t1 "''a''" 1 empty_theap "[]" "[]" ?t1 empty_theap "Transport_Clone 0"]
  note seq = registry_reuses_transport[of ?t0 "''a''" 1 scenario_theap "[''a'', ''b'', ''a'']"
      "fst ?R" "fst (snd ?R)" "snd (snd ?R)" "Transport_Clone 0"]
  from hit h1 have a: "hostRoundTripper ?t1 ''a'' empty_theap = (1, ?t1, empty_theap)" by blast
  from seq l have "map (hostRTs (fst (snd ?R))) [''a'', ''b'', ''a''] = map Some (fst ?R)" by blast
  with r have m: "map (hostRTs (fst (snd ?R))) [''a'', ''b'', ''a''] = [Some 1, Some 2, Some 1]"
    by simp
  from h1 a h0 f0 r c m show ?thesis by simp
qed

subsection \<open>The cache\<close>

lemma AddAndGet_distinct: "distinct (fst (AddAndGet k v now e))"
  by (simp add: AddAndGet_def Let_def)






subsection \<open>The default transport\<close>

lemma sint_add_twice:
  fixes a b :: "64 word"
  assumes "- (2 ^ 63) \<le> sint a + 2 * sint b" and "sint a + 2 * sint b < 2 ^ 63"
  shows "sint (a + 2 * b) = sint a + 2 * sint b"
proof -
  have "a + 2 * b = word_of_int (sint a + 2 * sint b)" by simp
  then have "sint (a + 2 * b) = signed_take_bit 63 (sint a + 2 * sint b)"
    by (simp only: sint_sbintrunc') simp
  also have "\<dots> = sint a + 2 * sint b"
    using assms by (simp add: signed_take_bit_int_eq_self)
  finally show ?thesis .
qed

text \<open>
  C8. The idle-connection timeout of \<open>httpTransport\<close> is
  \<open>expireAfter + 2 * expireLoopEvery\<close> exactly, which is at least that sum; the sum is
  taken in int64, and it is the sum of the two durations as integers whenever that sum is
  an int64.
\<close>

theorem httpTransport_IdleConnTimeout:
  assumes "httpTransport expireAfter expireLoopEvery stdDefaultTransport th = (a, th')"
  shows "IdleConnTimeout (transports th' a) = expireAfter + 2 * expireLoopEvery \<and>
         word_sle (expireAfter + 2 * expireLoopEvery) (IdleConnTimeout (transports th' a)) \<and>
         (- (2 ^ 63) \<le> sint expireAfter + 2 * sint expireLoopEvery \<and>
          sint expireAfter + 2 * sint expireLoopEvery < 2 ^ 63 \<longrightarrow>
            sint (IdleConnTimeout (transports th' a)) = sint expireAfter + 2 * sint expireLoopEvery)"
proof -
  have "IdleConnTimeout (transports th' a) = expireAfter + 2 * expireLoopEvery"
    using assms by (auto simp: httpTransport_def new_Config_def new_Transport_def Let_def)
  then show ?thesis by (simp add: sint_add_twice)
qed

theorem httpTransport_IdleConnTimeout_witness:
  "httpTransport (5 * Second) Second zero_Transport empty_theap = (0, scenario_theap) \<and>
   - (2 ^ 63) \<le> sint (5 * Second) + 2 * sint Second \<and>
   sint (5 * Second) + 2 * sint Second < 2 ^ 63 \<and>
   IdleConnTimeout (transports scenario_theap 0) = 7000000000 \<and>
   sint (IdleConnTimeout (transports scenario_theap 0)) = 7000000000"
proof -
  have e: "httpTransport (5 * Second) Second zero_Transport empty_theap = (0, scenario_theap)"
    by (simp add: scenario_theap_def httpTransport_def new_Config_def new_Transport_def
        empty_theap_def)
  have r: "- (2 ^ 63) \<le> sint (5 * Second) + 2 * sint Second"
    "sint (5 * Second) + 2 * sint Second < 2 ^ 63"
    by (simp_all add: Second_def)
  have v: "sint (5 * Second) + 2 * sint Second = 7000000000" "5 * Second + 2 * Second = 7000000000"
    by (simp_all add: Second_def)
  from httpTransport_IdleConnTimeout[OF e] e r v show ?thesis by simp
qed

subsection \<open>Hostname\<close>

lemma lastIndexFrom_after:
  "i \<le> length ys \<Longrightarrow> c \<notin> set ys \<Longrightarrow>
   lastIndexFrom (xs @ c # ys) c (Suc (length xs) + i) = int (length xs)"
proof (induction i)
  case 0
  then show ?case by simp
next
  case (Suc i)
  then have "(xs @ c # ys) ! (Suc (length xs) + i) = ys ! i"
    by (simp add: nth_append)
  moreover have "ys ! i \<noteq> c" using Suc.prems by (metis Suc_le_lessD nth_mem)
  ultimately show ?case using Suc by simp
qed

lemma LastIndexByte_port:
  "list_all is_digit port \<Longrightarrow> LastIndexByte (name @ CHR '':'' # port) CHR '':'' = int (length name)"
proof -
  assume d: "list_all is_digit port"
  have "CHR '':'' \<notin> set port"
  proof
    assume "CHR '':'' \<in> set port"
    with d have "is_digit CHR '':''" by (simp add: list_all_iff)
    then show False by (simp add: is_digit_def)
  qed
  from lastIndexFrom_after[OF le_refl this, of name] show ?thesis
    by (simp add: LastIndexByte_def)
qed

lemma splitHostPort_port:
  assumes "list_all is_digit port"
  shows "splitHostPort (name @ CHR '':'' # port) =
    (if name \<noteq> [] \<and> hd name = CHR ''['' \<and> last name = CHR '']'' then butlast (tl name) else name,
     port)"
  by (simp add: splitHostPort_def LastIndexByte_port[OF assms] validOptionalPort_def assms Let_def)

subsection \<open>RoundTrip\<close>

lemma RoundTrip_Inl:
  assumes "LookupIP env (Hostname (urls h (URL (requests h req)))) = Inl err"
  shows "RoundTrip env t req h =
    Returns ((None, Some (Errorf ''s3transport: lookup ip: '' err)), t,
             case Body (requests h req) of None \<Rightarrow> h | Some b \<Rightarrow> Body_Close b h)"
  using assms by (simp add: RoundTrip_def Let_def)

lemma RoundTrip_Inr:
  assumes look: "LookupIP env (Hostname (urls h (URL (requests h req)))) = Inr resolved"
    and add: "AddAndGet (Hostname (urls h (URL (requests h req)))) resolved (Now env) (hostIPs t) = (ips, cache)"
    and ne: "ips \<noteq> []"
    and rt: "hostRoundTripper (t\<lparr>hostIPs := cache\<rparr>) (Hostname (urls h (URL (requests h req)))) (tstore h) = (rt, t2, th)"
    and h': "h' = h\<lparr>urls_next := Suc (urls_next h),
       requests_next := Suc (requests_next h),
       requests := (requests h)(requests_next h :=
          (requests h req)\<lparr>URL := urls_next h, Host := Hostname (urls h (URL (requests h req)))\<rparr>),
       urls := (urls h)(urls_next h :=
          (urls h (URL (requests h req)))\<lparr>URL_Host := IP_String env (ips ! (rand_source env mod length ips))\<rparr>),
       tstore := th\<rparr>"
  shows "RoundTrip env t req h =
    Returns (fst (Transport_RoundTrip env rt (requests_next h) h'), t2,
             snd (Transport_RoundTrip env rt (requests_next h) h'))"
  using ne unfolding h'
  by (simp add: RoundTrip_def Let_def look add rt rand_Intn_def index_def zmod_int[symmetric]
       Request_Clone_def new_URL_def new_Request_def case_prod_beta)

lemma RoundTrip_dispatches:
  assumes look: "LookupIP env (Hostname (urls h (URL (requests h req)))) = Inr resolved"
    and add: "AddAndGet (Hostname (urls h (URL (requests h req)))) resolved (Now env) (hostIPs t) = (ips, cache)"
    and ne: "ips \<noteq> []"
    and rt: "hostRoundTripper (t\<lparr>hostIPs := cache\<rparr>) (Hostname (urls h (URL (requests h req)))) (tstore h) = (rt, t2, th)"
    and h': "h' = h\<lparr>urls_next := Suc (urls_next h),
       requests_next := Suc (requests_next h),
       requests := (requests h)(requests_next h :=
          (requests h req)\<lparr>URL := urls_next h, Host := Hostname (urls h (URL (requests h req)))\<rparr>),
       urls := (urls h)(urls_next h :=
          (urls h (URL (requests h req)))\<lparr>URL_Host := IP_String env (ips ! (rand_source env mod length ips))\<rparr>),
       tstore := th\<rparr>"
  shows "dispatches env t req h rt (requests_next h) h' t2"
  unfolding dispatches_def
proof
  fix d
  let ?env = "env\<lparr>Transport_RoundTrip := d\<rparr>"
  have "RoundTrip ?env t req h =
    Returns (fst (Transport_RoundTrip ?env rt (requests_next h) h'), t2,
             snd (Transport_RoundTrip ?env rt (requests_next h) h'))"
    by (rule RoundTrip_Inr[where resolved = resolved and ips = ips and cache = cache and th = th])
       (simp_all add: look add ne rt h')
  then show "RoundTrip ?env t req h = Returns (fst (d rt (requests_next h) h'), t2, snd (d rt (requests_next h) h'))"
    by simp
qed


lemma RoundTrip_empty:
  assumes look: "LookupIP env (Hostname (urls h (URL (requests h req)))) = Inr resolved"
    and add: "fst (AddAndGet (Hostname (urls h (URL (requests h req)))) resolved (Now env) (hostIPs t)) = []"
  shows "RoundTrip env t req h = Panics ''invalid argument to Intn''"
  using add by (simp add: RoundTrip_def Let_def look rand_Intn_def case_prod_beta)

lemma scenario_Hostname:
  "Hostname (urls scenario_heap (URL (requests scenario_heap 0))) = ''bucket.example.com''"
  unfolding scenario_heap_def by code_simp

lemma scenario_LookupIP:
  "LookupIP scenario_env ''bucket.example.com'' = Inr [[203, 0, 113, 5], [203, 0, 113, 6]]"
  by (simp add: scenario_env_def)

lemma scenario_AddAndGet:
  "fst (AddAndGet ''bucket.example.com'' [[203, 0, 113, 5], [203, 0, 113, 6]] (Now scenario_env)
         (hostIPs (Default 0))) = [[203, 0, 113, 5], [203, 0, 113, 6]]"
  by (simp add: AddAndGet_def Default_def New_def newExpiringMap_def Let_def)

text \<open>The scenario, computed: the clone at address 1 goes to the IP, through the
  transport made for the hostname; the caller's request at address 0 is as it was.\<close>

lemma scenario_RoundTrip:
  "(case RoundTrip scenario_env (Default 0) 0 scenario_heap of
      Panics msg \<Rightarrow> False
    | Returns (res, t', h') \<Rightarrow>
        res = (Some ''200 OK'', None) \<and>
        hostRTs t' ''bucket.example.com'' = Some 1 \<and>
        factoryCalls t' = [''bucket.example.com''] \<and>
        map_option values (hostIPs t' ''bucket.example.com'') = Some [[203, 0, 113, 5], [203, 0, 113, 6]] \<and>
        requests h' 1 = \<lparr>Method = ''GET'', URL = 1, Header = [], Body = Some 0, Host = ''bucket.example.com''\<rparr> \<and>
        urls h' 1 = \<lparr>Scheme = ''https'', URL_Host = ''203.0.113.6'', Path = ''/key''\<rparr> \<and>
        requests h' 0 = \<lparr>Method = ''GET'', URL = 0, Header = [], Body = Some 0, Host = []\<rparr> \<and>
        urls h' 0 = \<lparr>Scheme = ''https'', URL_Host = ''bucket.example.com:443'', Path = ''/key''\<rparr> \<and>
        tls_ServerName (tstore h') 1 = Some ''bucket.example.com'' \<and>
        tls_ServerName (tstore h') 0 = Some [])"
proof -
  have h: "Hostname \<lparr>Scheme = ''https'', URL_Host = ''bucket.example.com:443'', Path = ''/key''\<rparr>
             = ''bucket.example.com''"
    by code_simp
  show ?thesis
    by (simp add: RoundTrip_def scenario_heap_def scenario_env_def h Default_def New_def
        newExpiringMap_def AddAndGet_def Request_Clone_def new_URL_def new_Request_def
        rand_Intn_def index_def hostRoundTripper_def Transport_Clone_def new_Config_def
        new_Transport_def scenario_theap_def httpTransport_def empty_theap_def tls_ServerName_def
        Let_def numeral_2_eq_2[symmetric])
qed

text \<open>
  C3. When the resolver fails for the request's hostname, \<open>RoundTrip\<close> returns no
  response and an error that wraps the resolver's error; a body that is not nil has been
  closed; and nothing else has changed: \<open>T\<close> is returned as it was (registry, cache and
  the record of factory calls), no transport or configuration is allocated, and the store
  differs at most in the closed body.
\<close>

theorem RoundTrip_resolution_failure:
  assumes "LookupIP env (Hostname (urls h (URL (requests h req)))) = Inl err"
  shows "\<exists>e h'. RoundTrip env t req h = Returns ((None, Some e), t, h') \<and>
           Unwrap e = Some err \<and> Error e = ''s3transport: lookup ip: '' @ Error err \<and>
           tstore h' = tstore h \<and> requests h' = requests h \<and> urls h' = urls h \<and>
           (case Body (requests h req) of
              None \<Rightarrow> h' = h
            | Some b \<Rightarrow> closed h' b \<and> h' = h\<lparr>closed := (closed h)(b := True)\<rparr>)"
  by (simp add: RoundTrip_Inl[OF assms] Body_Close_def split: option.splits)

theorem RoundTrip_resolution_failure_witness:
  "LookupIP (scenario_env\<lparr>LookupIP := \<lambda>host. Inl (Opaque ''no such host'')\<rparr>)
     (Hostname (urls scenario_heap (URL (requests scenario_heap 0)))) = Inl (Opaque ''no such host'') \<and>
   Body (requests scenario_heap 0) = Some 0 \<and>
   (\<exists>e h'. RoundTrip (scenario_env\<lparr>LookupIP := \<lambda>host. Inl (Opaque ''no such host'')\<rparr>)
             (Default 0) 0 scenario_heap = Returns ((None, Some e), Default 0, h') \<and>
           Error e = ''s3transport: lookup ip: no such host'' \<and>
           Unwrap e = Some (Opaque ''no such host'') \<and>
           closed h' 0 \<and> \<not> closed scenario_heap 0 \<and> tstore h' = tstore scenario_heap)"
proof -
  let ?env = "scenario_env\<lparr>LookupIP := \<lambda>host. Inl (Opaque ''no such host'')\<rparr>"
  have l: "LookupIP ?env (Hostname (urls scenario_heap (URL (requests scenario_heap 0))))
             = Inl (Opaque ''no such host'')" by simp
  have b: "Body (requests scenario_heap 0) = Some 0" by (simp add: scenario_heap_def)
  have c: "\<not> closed scenario_heap 0" by (simp add: scenario_heap_def)
  from RoundTrip_resolution_failure[OF l, of "Default 0"] b c l show ?thesis
    by auto
qed

text \<open>
  C4. When resolution succeeds (and the merged list is not empty, see C9), the request
  handed to the pooled transport is a new object with a new URL: its URL host is the
  selected IP's string, its \<open>Host\<close> is the hostname of the original URL, its other fields
  are the original's, and the caller's request and URL are as they were.
\<close>

theorem RoundTrip_rewrites_clone:
  assumes "req < requests_next h" and "URL (requests h req) < urls_next h"
    and "host = Hostname (urls h (URL (requests h req)))"
    and "LookupIP env host = Inr resolved"
    and "ips = fst (AddAndGet host resolved (Now env) (hostIPs t))"
    and "ips \<noteq> []"
  shows "\<exists>rt hostReq h' t'.
           dispatches env t req h rt hostReq h' t' \<and>
           hostReq \<noteq> req \<and> URL (requests h' hostReq) \<noteq> URL (requests h req) \<and>
           URL_Host (urls h' (URL (requests h' hostReq))) =
             IP_String env (ips ! (rand_source env mod length ips)) \<and>
           Host (requests h' hostReq) = host \<and>
           Method (requests h' hostReq) = Method (requests h req) \<and>
           Header (requests h' hostReq) = Header (requests h req) \<and>
           Body (requests h' hostReq) = Body (requests h req) \<and>
           Scheme (urls h' (URL (requests h' hostReq))) = Scheme (urls h (URL (requests h req))) \<and>
           Path (urls h' (URL (requests h' hostReq))) = Path (urls h (URL (requests h req))) \<and>
           requests h' req = requests h req \<and>
           urls h' (URL (requests h req)) = urls h (URL (requests h req)) \<and>
           closed h' = closed h"
proof -
  obtain cache where add: "AddAndGet host resolved (Now env) (hostIPs t) = (ips, cache)"
    using assms(5) by (cases "AddAndGet host resolved (Now env) (hostIPs t)") simp
  obtain rt t2 th where rt: "hostRoundTripper (t\<lparr>hostIPs := cache\<rparr>) host (tstore h) = (rt, t2, th)"
    by (cases "hostRoundTripper (t\<lparr>hostIPs := cache\<rparr>) host (tstore h)")
  note d = RoundTrip_dispatches[OF assms(4)[unfolded assms(3)] add[unfolded assms(3)] assms(6)
      rt[unfolded assms(3)] refl]
  show ?thesis
    apply (rule exI[of _ rt], rule exI[of _ "requests_next h"])
    apply (rule exI, rule exI[of _ t2])
    apply (rule conjI, rule d)
    using assms(1,2,3) apply simp
    done
qed

theorem RoundTrip_rewrites_clone_witness:
  "0 < requests_next scenario_heap \<and> URL (requests scenario_heap 0) < urls_next scenario_heap \<and>
   Hostname (urls scenario_heap (URL (requests scenario_heap 0))) = ''bucket.example.com'' \<and>
   LookupIP scenario_env ''bucket.example.com'' = Inr [[203, 0, 113, 5], [203, 0, 113, 6]] \<and>
   fst (AddAndGet ''bucket.example.com'' [[203, 0, 113, 5], [203, 0, 113, 6]] (Now scenario_env)
          (hostIPs (Default 0))) = [[203, 0, 113, 5], [203, 0, 113, 6]] \<and>
   (\<exists>rt hostReq h' t'.
      dispatches scenario_env (Default 0) 0 scenario_heap rt hostReq h' t' \<and>
      hostReq \<noteq> 0 \<and>
      URL_Host (urls h' (URL (requests h' hostReq))) = ''203.0.113.6'' \<and>
      Host (requests h' hostReq) = ''bucket.example.com'' \<and>
      Host (requests h' 0) = [] \<and>
      URL_Host (urls h' (URL (requests h' 0))) = ''bucket.example.com:443'')"
proof -
  have r: "0 < requests_next scenario_heap" by (simp add: scenario_heap_def)
  have u: "URL (requests scenario_heap 0) < urls_next scenario_heap" by (simp add: scenario_heap_def)
  note h = scenario_Hostname and l = scenario_LookupIP and a = scenario_AddAndGet
  have s': "IP_String scenario_env ([[203, 0, 113, 5], [203, 0, 113, 6]] !
              (rand_source scenario_env mod length [[203, 0, 113, 5], [203, 0, 113, 6 :: 8 word]]))
             = ''203.0.113.6''"
    by (simp add: scenario_env_def numeral_2_eq_2[symmetric])
  have o: "Host (requests scenario_heap 0) = []"
    "URL_Host (urls scenario_heap (URL (requests scenario_heap 0))) = ''bucket.example.com:443''"
    by (simp_all add: scenario_heap_def)
  from RoundTrip_rewrites_clone[OF r u h[symmetric] l a[symmetric]]
  obtain rt hostReq h' t' where
    "dispatches scenario_env (Default 0) 0 scenario_heap rt hostReq h' t'"
    "hostReq \<noteq> 0"
    "URL_Host (urls h' (URL (requests h' hostReq))) = ''203.0.113.6''"
    "Host (requests h' hostReq) = ''bucket.example.com''"
    "requests h' 0 = requests scenario_heap 0"
    "urls h' (URL (requests scenario_heap 0)) = urls scenario_heap (URL (requests scenario_heap 0))"
    by (auto simp only: s')
  with o have "\<exists>rt hostReq h' t'.
      dispatches scenario_env (Default 0) 0 scenario_heap rt hostReq h' t' \<and>
      hostReq \<noteq> 0 \<and>
      URL_Host (urls h' (URL (requests h' hostReq))) = ''203.0.113.6'' \<and>
      Host (requests h' hostReq) = ''bucket.example.com'' \<and>
      Host (requests h' 0) = [] \<and>
      URL_Host (urls h' (URL (requests h' 0))) = ''bucket.example.com:443''"
    by (intro exI[of _ rt] exI[of _ hostReq] exI[of _ h'] exI[of _ t']) simp
  with r u h l a show ?thesis by simp
qed

text \<open>
  C5. When resolution succeeds, the IP written into the dispatched request's URL is the
  element of the list returned by \<open>AddAndGet\<close> at the position that
  \<^verbatim>\<open>rand.Intn(len(ips))\<close> yields: the position is within the list, the IP is an element of
  the merged set, and positions and IPs of the set correspond one to one, so that a
  position drawn uniformly selects each IP with equal probability.
\<close>

theorem RoundTrip_selects_from_merged:
  assumes "host = Hostname (urls h (URL (requests h req)))"
    and "LookupIP env host = Inr resolved"
    and "ips = fst (AddAndGet host resolved (Now env) (hostIPs t))"
    and "ips \<noteq> []"
    and "i = rand_source env mod length ips"
  shows "i < length ips \<and> ips ! i \<in> set ips \<and>
         rand_Intn (rand_source env) (int (length ips)) = Returns (int i) \<and>
         (\<exists>rt hostReq h' t'.
            dispatches env t req h rt hostReq h' t' \<and>
            URL_Host (urls h' (URL (requests h' hostReq))) = IP_String env (ips ! i)) \<and>
         bij_betw (\<lambda>j. ips ! j) {..<length ips} (set ips)"
proof -
  obtain cache where add: "AddAndGet host resolved (Now env) (hostIPs t) = (ips, cache)"
    using assms(3) by (cases "AddAndGet host resolved (Now env) (hostIPs t)") simp
  obtain rt t2 th where rt: "hostRoundTripper (t\<lparr>hostIPs := cache\<rparr>) host (tstore h) = (rt, t2, th)"
    by (cases "hostRoundTripper (t\<lparr>hostIPs := cache\<rparr>) host (tstore h)")
  note d = RoundTrip_dispatches[OF assms(2)[unfolded assms(1)] add[unfolded assms(1)] assms(4)
      rt[unfolded assms(1)] refl]
  have i: "i < length ips" using assms(4,5) by simp
  have r: "rand_Intn (rand_source env) (int (length ips)) = Returns (int i)"
    using assms(4,5) by (simp add: rand_Intn_def zmod_int)
  have ex: "\<exists>rt hostReq h' t'.
            dispatches env t req h rt hostReq h' t' \<and>
            URL_Host (urls h' (URL (requests h' hostReq))) = IP_String env (ips ! i)"
    apply (rule exI[of _ rt], rule exI[of _ "requests_next h"])
    apply (rule exI, rule exI[of _ t2])
    apply (rule conjI, rule d)
    using assms(5) apply simp
    done
  have "distinct ips" unfolding assms(3) by (rule AddAndGet_distinct)
  then have b: "bij_betw (\<lambda>j. ips ! j) {..<length ips} (set ips)"
    by (rule bij_betw_nth) simp_all
  from i r ex b show ?thesis by simp
qed

theorem RoundTrip_selects_from_merged_witness:
  "Hostname (urls scenario_heap (URL (requests scenario_heap 0))) = ''bucket.example.com'' \<and>
   LookupIP scenario_env ''bucket.example.com'' = Inr [[203, 0, 113, 5], [203, 0, 113, 6]] \<and>
   fst (AddAndGet ''bucket.example.com'' [[203, 0, 113, 5], [203, 0, 113, 6]] (Now scenario_env)
          (hostIPs (Default 0))) = [[203, 0, 113, 5], [203, 0, 113, 6]] \<and>
   rand_source scenario_env mod length [[203, 0, 113, 5], [203, 0, 113, 6 :: 8 word]] = 1 \<and>
   rand_Intn (rand_source scenario_env) 2 = Returns 1 \<and>
   (\<exists>rt hostReq h' t'.
      dispatches scenario_env (Default 0) 0 scenario_heap rt hostReq h' t' \<and>
      URL_Host (urls h' (URL (requests h' hostReq))) = ''203.0.113.6'') \<and>
   bij_betw (\<lambda>j. [[203, 0, 113, 5], [203, 0, 113, 6 :: 8 word]] ! j) {..<2}
     {[203, 0, 113, 5], [203, 0, 113, 6]}"
proof -
  note h = scenario_Hostname and l = scenario_LookupIP and a = scenario_AddAndGet
  have i: "(1::nat) = rand_source scenario_env mod length [[203, 0, 113, 5], [203, 0, 113, 6 :: 8 word]]"
    by (simp add: scenario_env_def numeral_2_eq_2[symmetric])
  have s: "IP_String scenario_env [203, 0, 113, 6] = ''203.0.113.6''"
    by (simp add: scenario_env_def)
  from RoundTrip_selects_from_merged[OF h[symmetric] l a[symmetric] _ i]
    h l a i show ?thesis
    by (simp add: s numeral_2_eq_2)
qed



text \<open>
  C9. When the resolver returns without error and the list returned by \<open>AddAndGet\<close> is
  not empty, \<^verbatim>\<open>rand.Intn(len(ips))\<close> returns a position within the list, the indexing does
  not panic and \<open>RoundTrip\<close> returns. There is no guard for the empty list: there
  \<^verbatim>\<open>rand.Intn(0)\<close> panics.
\<close>

theorem RoundTrip_selection_in_bounds:
  assumes "LookupIP env (Hostname (urls h (URL (requests h req)))) = Inr resolved"
    and "ips = fst (AddAndGet (Hostname (urls h (URL (requests h req)))) resolved (Now env) (hostIPs t))"
  shows "(ips \<noteq> [] \<longrightarrow>
            (\<exists>i. rand_Intn (rand_source env) (int (length ips)) = Returns i \<and>
                 0 \<le> i \<and> i < int (length ips) \<and> index ips i = Returns (ips ! nat i)) \<and>
            (\<exists>r. RoundTrip env t req h = Returns r)) \<and>
         (ips = [] \<longrightarrow> RoundTrip env t req h = Panics ''invalid argument to Intn'')"
proof (intro conjI impI)
  assume ne: "ips \<noteq> []"
  then show "\<exists>i. rand_Intn (rand_source env) (int (length ips)) = Returns i \<and>
                 0 \<le> i \<and> i < int (length ips) \<and> index ips i = Returns (ips ! nat i)"
    by (simp add: rand_Intn_def index_def)
  obtain cache where add: "AddAndGet (Hostname (urls h (URL (requests h req)))) resolved (Now env) (hostIPs t) = (ips, cache)"
    using assms(2) by (cases "AddAndGet (Hostname (urls h (URL (requests h req)))) resolved (Now env) (hostIPs t)") simp
  obtain rt t2 th where rt: "hostRoundTripper (t\<lparr>hostIPs := cache\<rparr>) (Hostname (urls h (URL (requests h req)))) (tstore h) = (rt, t2, th)"
    by (cases "hostRoundTripper (t\<lparr>hostIPs := cache\<rparr>) (Hostname (urls h (URL (requests h req)))) (tstore h)")
  from RoundTrip_Inr[OF assms(1) add ne rt refl] show "\<exists>r. RoundTrip env t req h = Returns r" by blast
next
  assume "ips = []"
  with assms show "RoundTrip env t req h = Panics ''invalid argument to Intn''"
    by (simp add: RoundTrip_empty)
qed

theorem RoundTrip_selection_in_bounds_witness:
  "LookupIP scenario_env (Hostname (urls scenario_heap (URL (requests scenario_heap 0))))
     = Inr [[203, 0, 113, 5], [203, 0, 113, 6]] \<and>
   fst (AddAndGet (Hostname (urls scenario_heap (URL (requests scenario_heap 0))))
          [[203, 0, 113, 5], [203, 0, 113, 6]] (Now scenario_env) (hostIPs (Default 0)))
     = [[203, 0, 113, 5], [203, 0, 113, 6]] \<and>
   (\<exists>r. RoundTrip scenario_env (Default 0) 0 scenario_heap = Returns r) \<and>
   LookupIP (scenario_env\<lparr>LookupIP := \<lambda>host. Inr []\<rparr>)
     (Hostname (urls scenario_heap (URL (requests scenario_heap 0)))) = Inr [] \<and>
   fst (AddAndGet (Hostname (urls scenario_heap (URL (requests scenario_heap 0))))
          [] (Now (scenario_env\<lparr>LookupIP := \<lambda>host. Inr []\<rparr>)) (hostIPs (Default 0))) = [] \<and>
   RoundTrip (scenario_env\<lparr>LookupIP := \<lambda>host. Inr []\<rparr>) (Default 0) 0 scenario_heap
     = Panics ''invalid argument to Intn''"
proof -
  let ?host = "Hostname (urls scenario_heap (URL (requests scenario_heap 0)))"
  let ?env = "scenario_env\<lparr>LookupIP := \<lambda>host. Inr []\<rparr>"
  have l: "LookupIP scenario_env ?host = Inr [[203, 0, 113, 5], [203, 0, 113, 6]]"
    by (simp add: scenario_Hostname scenario_LookupIP)
  have a: "[[203, 0, 113, 5], [203, 0, 113, 6]] =
     fst (AddAndGet ?host [[203, 0, 113, 5], [203, 0, 113, 6]] (Now scenario_env) (hostIPs (Default 0)))"
    by (simp add: scenario_Hostname scenario_AddAndGet)
  have l0: "LookupIP ?env ?host = Inr []" by simp
  have a0: "[] = fst (AddAndGet ?host [] (Now ?env) (hostIPs (Default 0)))"
    by (simp add: AddAndGet_def Default_def New_def newExpiringMap_def Let_def)
  from RoundTrip_selection_in_bounds[OF l a]
  have r: "\<exists>r. RoundTrip scenario_env (Default 0) 0 scenario_heap = Returns r" by simp
  from RoundTrip_selection_in_bounds[OF l0 a0]
  have p: "RoundTrip ?env (Default 0) 0 scenario_heap = Panics ''invalid argument to Intn''" by simp
  from l a[symmetric] r l0 a0[symmetric] p show ?thesis by simp
qed

text \<open>
  C10. For a URL host \<open>name:port\<close> the hostname is \<open>name\<close> (without the brackets of an
  IPv6 literal): the port is stripped. That hostname is the key of the cache entry and of
  the registry entry and the \<open>Host\<close> of the dispatched request, whose URL host is the
  bare string of the selected IP: the port is dropped. A request for the same name on
  another port has the same hostname, so it uses the same cache entry and gets the same
  pooled transport.
\<close>

theorem RoundTrip_drops_port:
  assumes "list_all is_digit port" and "list_all is_digit port2"
    and "URL_Host (urls h (URL (requests h req))) = name @ CHR '':'' # port"
    and "host = (if name \<noteq> [] \<and> hd name = CHR ''['' \<and> last name = CHR '']''
                 then butlast (tl name) else name)"
    and "LookupIP env host = Inr resolved"
    and "ips = fst (AddAndGet host resolved (Now env) (hostIPs t))"
    and "ips \<noteq> []"
  shows "Hostname (urls h (URL (requests h req))) = host \<and>
         (\<exists>rt hostReq h' t'.
            dispatches env t req h rt hostReq h' t' \<and>
            URL_Host (urls h' (URL (requests h' hostReq))) =
              IP_String env (ips ! (rand_source env mod length ips)) \<and>
            Host (requests h' hostReq) = host \<and>
            hostRTs t' = (hostRTs t)(host \<mapsto> rt) \<and>
            hostIPs t' = snd (AddAndGet host resolved (Now env) (hostIPs t)) \<and>
            (\<forall>u2 th. URL_Host u2 = name @ CHR '':'' # port2 \<longrightarrow>
               Hostname u2 = host \<and> hostRoundTripper t' (Hostname u2) th = (rt, t', th)))"
proof -
  have hn: "Hostname (urls h (URL (requests h req))) = host"
    by (simp add: Hostname_def assms(3,4) splitHostPort_port[OF assms(1)])
  have hn2: "\<And>u2. URL_Host u2 = name @ CHR '':'' # port2 \<Longrightarrow> Hostname u2 = host"
    by (simp add: Hostname_def assms(4) splitHostPort_port[OF assms(2)])
  obtain cache where add: "AddAndGet host resolved (Now env) (hostIPs t) = (ips, cache)"
    using assms(6) by (cases "AddAndGet host resolved (Now env) (hostIPs t)") simp
  obtain rt t2 th where rt: "hostRoundTripper (t\<lparr>hostIPs := cache\<rparr>) host (tstore h) = (rt, t2, th)"
    by (cases "hostRoundTripper (t\<lparr>hostIPs := cache\<rparr>) host (tstore h)")
  note d = RoundTrip_dispatches[OF assms(5)[folded hn] add[folded hn] assms(7) rt[folded hn] refl]
  from hostRoundTripper_registry[OF rt] have reg:
    "hostRTs t2 = (hostRTs t)(host \<mapsto> rt)" "hostIPs t2 = cache" by simp_all
  have hit: "\<And>th. hostRoundTripper t2 host th = (rt, t2, th)"
    using reg(1) by (simp add: hostRoundTripper_hit)
  have "\<exists>rt hostReq h' t'.
            dispatches env t req h rt hostReq h' t' \<and>
            URL_Host (urls h' (URL (requests h' hostReq))) =
              IP_String env (ips ! (rand_source env mod length ips)) \<and>
            Host (requests h' hostReq) = host \<and>
            hostRTs t' = (hostRTs t)(host \<mapsto> rt) \<and>
            hostIPs t' = snd (AddAndGet host resolved (Now env) (hostIPs t)) \<and>
            (\<forall>u2 th. URL_Host u2 = name @ CHR '':'' # port2 \<longrightarrow>
               Hostname u2 = host \<and> hostRoundTripper t' (Hostname u2) th = (rt, t', th))"
    apply (rule exI[of _ rt], rule exI[of _ "requests_next h"])
    apply (rule exI, rule exI[of _ t2])
    apply (rule conjI, rule d)
    using hn hn2 reg add hit apply simp
    done
  with hn show ?thesis by simp
qed

theorem RoundTrip_drops_port_witness:
  "list_all is_digit ''443'' \<and> list_all is_digit ''9000'' \<and>
   URL_Host (urls scenario_heap (URL (requests scenario_heap 0))) = ''bucket.example.com'' @ CHR '':'' # ''443'' \<and>
   LookupIP scenario_env ''bucket.example.com'' = Inr [[203, 0, 113, 5], [203, 0, 113, 6]] \<and>
   fst (AddAndGet ''bucket.example.com'' [[203, 0, 113, 5], [203, 0, 113, 6]] (Now scenario_env)
          (hostIPs (Default 0))) = [[203, 0, 113, 5], [203, 0, 113, 6]] \<and>
   Hostname (urls scenario_heap (URL (requests scenario_heap 0))) = ''bucket.example.com'' \<and>
   Hostname \<lparr>Scheme = ''https'', URL_Host = ''bucket.example.com:9000'', Path = []\<rparr> = ''bucket.example.com'' \<and>
   (\<exists>rt hostReq h' t'.
      dispatches scenario_env (Default 0) 0 scenario_heap rt hostReq h' t' \<and>
      URL_Host (urls h' (URL (requests h' hostReq))) = ''203.0.113.6'' \<and>
      Host (requests h' hostReq) = ''bucket.example.com'' \<and>
      hostRTs t' = [''bucket.example.com'' \<mapsto> rt] \<and>
      hostRoundTripper t'
        (Hostname \<lparr>Scheme = ''https'', URL_Host = ''bucket.example.com:9000'', Path = []\<rparr>)
        empty_theap = (rt, t', empty_theap))"
proof -
  have d1: "list_all is_digit ''443''" by (simp add: is_digit_def)
  have d2: "list_all is_digit ''9000''" by (simp add: is_digit_def)
  have u: "URL_Host (urls scenario_heap (URL (requests scenario_heap 0)))
             = ''bucket.example.com'' @ CHR '':'' # ''443''"
    by (simp add: scenario_heap_def)
  have n: "''bucket.example.com'' =
     (if ''bucket.example.com'' \<noteq> [] \<and> hd ''bucket.example.com'' = CHR ''['' \<and>
         last ''bucket.example.com'' = CHR '']''
      then butlast (tl ''bucket.example.com'') else ''bucket.example.com'')"
    by simp
  note l = scenario_LookupIP and a = scenario_AddAndGet
  have s': "IP_String scenario_env ([[203, 0, 113, 5], [203, 0, 113, 6]] !
              (rand_source scenario_env mod length [[203, 0, 113, 5], [203, 0, 113, 6 :: 8 word]]))
             = ''203.0.113.6''"
    by (simp add: scenario_env_def numeral_2_eq_2[symmetric])
  have e: "hostRTs (Default 0) = Map.empty" by (simp add: Default_def New_def)
  have p2: "URL_Host \<lparr>Scheme = ''https'', URL_Host = ''bucket.example.com:9000'', Path = []\<rparr>
              = ''bucket.example.com'' @ CHR '':'' # ''9000''" by simp
  from RoundTrip_drops_port[OF d1 d2 u n l a[symmetric]]
  have hn: "Hostname (urls scenario_heap (URL (requests scenario_heap 0))) = ''bucket.example.com''"
    and ex: "\<exists>rt hostReq h' t'.
            dispatches scenario_env (Default 0) 0 scenario_heap rt hostReq h' t' \<and>
            URL_Host (urls h' (URL (requests h' hostReq))) =
              IP_String scenario_env ([[203, 0, 113, 5], [203, 0, 113, 6]] !
                (rand_source scenario_env mod length [[203, 0, 113, 5], [203, 0, 113, 6 :: 8 word]])) \<and>
            Host (requests h' hostReq) = ''bucket.example.com'' \<and>
            hostRTs t' = (hostRTs (Default 0))(''bucket.example.com'' \<mapsto> rt) \<and>
            hostIPs t' = snd (AddAndGet ''bucket.example.com'' [[203, 0, 113, 5], [203, 0, 113, 6]]
                (Now scenario_env) (hostIPs (Default 0))) \<and>
            (\<forall>u2 th. URL_Host u2 = ''bucket.example.com'' @ CHR '':'' # ''9000'' \<longrightarrow>
               Hostname u2 = ''bucket.example.com'' \<and>
               hostRoundTripper t' (Hostname u2) th = (rt, t', th))"
    by blast+
  from ex obtain rt hostReq h' t' where
    x: "dispatches scenario_env (Default 0) 0 scenario_heap rt hostReq h' t'"
      "URL_Host (urls h' (URL (requests h' hostReq))) = ''203.0.113.6''"
      "Host (requests h' hostReq) = ''bucket.example.com''"
      "hostRTs t' = [''bucket.example.com'' \<mapsto> rt]"
    and y: "\<And>u2 th. URL_Host u2 = ''bucket.example.com'' @ CHR '':'' # ''9000'' \<Longrightarrow>
               Hostname u2 = ''bucket.example.com'' \<and>
               hostRoundTripper t' (Hostname u2) th = (rt, t', th)"
    unfolding s' e by blast
  from y[OF p2, of empty_theap] have z:
    "Hostname \<lparr>Scheme = ''https'', URL_Host = ''bucket.example.com:9000'', Path = []\<rparr> = ''bucket.example.com''"
    "hostRoundTripper t'
        (Hostname \<lparr>Scheme = ''https'', URL_Host = ''bucket.example.com:9000'', Path = []\<rparr>)
        empty_theap = (rt, t', empty_theap)"
    by blast+
  have "\<exists>rt hostReq h' t'.
      dispatches scenario_env (Default 0) 0 scenario_heap rt hostReq h' t' \<and>
      URL_Host (urls h' (URL (requests h' hostReq))) = ''203.0.113.6'' \<and>
      Host (requests h' hostReq) = ''bucket.example.com'' \<and>
      hostRTs t' = [''bucket.example.com'' \<mapsto> rt] \<and>
      hostRoundTripper t'
        (Hostname \<lparr>Scheme = ''https'', URL_Host = ''bucket.example.com:9000'', Path = []\<rparr>)
        empty_theap = (rt, t', empty_theap)"
    using x z by blast
  with d1 d2 u l a hn z(1) show ?thesis by simp
qed

end
